theory Spec2Isabelle
  imports Main
begin

section \<open>Python values used by \<^verbatim>\<open>simple_parser.py\<close>\<close>

text \<open>
  A Python \<^verbatim>\<open>str\<close> is a sequence of Unicode code points, and iterating over it
  (\<^verbatim>\<open>for symbol in input\<close>, \<^verbatim>\<open>reversed(production)\<close>, \<^verbatim>\<open>list(s)\<close>) yields one
  one-character string per code point. A code point is modelled as a natural number and a
  string as a list of them, so that the epsilon marker of the LL table (U+03F5, outside
  the 8-bit range of \<^typ>\<open>char\<close>) is one character as it is in Python. \<open>ascii\<close> writes
  an ASCII literal of the source.
\<close>

type_synonym pychar = nat
type_synonym pystr = "pychar list"

definition ascii :: "string \<Rightarrow> pystr" where
  "ascii s = map of_char s"

text \<open>\<^verbatim>\<open>ID_SYMBOL: str = "#"\<close> (line 16) and the literal \<^verbatim>\<open>"\<epsilon>"\<close> of line 245.\<close>

definition ID_SYMBOL :: pystr where
  "ID_SYMBOL = ascii ''#''"

definition EPSILON :: pystr where
  "EPSILON = [0x3F5]"

text \<open>The only exception the two simulators can raise: \<^verbatim>\<open>pop\<close> from an empty list
  and an index out of range are both \<^verbatim>\<open>IndexError\<close>.\<close>

datatype py_error = IndexError

text \<open>
  \<^verbatim>\<open>s.replace(old, new)\<close> for a non-empty \<open>old\<close>: the occurrences of \<open>old\<close> are
  replaced from left to right, without overlap. (The source calls it with \<^verbatim>\<open>"id"\<close> and
  \<^verbatim>\<open>"State_"\<close> only; for an empty \<open>old\<close> this function is the identity.)
\<close>

fun py_replace :: "pystr \<Rightarrow> pystr \<Rightarrow> pystr \<Rightarrow> pystr" where
  "py_replace old new [] = []"
| "py_replace old new (c # cs) =
     (if old \<noteq> [] \<and> take (length old) (c # cs) = old
      then new @ py_replace old new (drop (length old - 1) cs)
      else c # py_replace old new cs)"

text \<open>\<^verbatim>\<open>xs[n]\<close>: a negative index counts from the end; out of range raises.\<close>

definition py_index :: "'a list \<Rightarrow> int \<Rightarrow> py_error + 'a" where
  "py_index xs n =
     (let len = int (length xs); k = (if n < 0 then len + n else n)
      in if 0 \<le> k \<and> k < len then Inr (xs ! nat k) else Inl IndexError)"

text \<open>\<^verbatim>\<open>xs.insert(n, x)\<close>: a negative index counts from the end, and an index beyond
  either end is clamped to it.\<close>

definition py_insert :: "int \<Rightarrow> 'a \<Rightarrow> 'a list \<Rightarrow> 'a list" where
  "py_insert n x xs =
     (let len = int (length xs);
          k = (if n < 0 then max 0 (len + n) else min n len)
      in take (nat k) xs @ [x] @ drop (nat k) xs)"

text \<open>\<^verbatim>\<open>s.startswith(p)\<close>, \<^verbatim>\<open>sub in s\<close> and \<^verbatim>\<open>sep.join(xs)\<close>.\<close>

definition py_startswith :: "pystr \<Rightarrow> pystr \<Rightarrow> bool" where
  "py_startswith s p = (take (length p) s = p)"

fun py_contains :: "pystr \<Rightarrow> pystr \<Rightarrow> bool" where
  "py_contains sub [] = (sub = [])"
| "py_contains sub (c # cs) = (take (length sub) (c # cs) = sub \<or> py_contains sub cs)"

fun py_join :: "pystr \<Rightarrow> pystr list \<Rightarrow> pystr" where
  "py_join sep [] = []"
| "py_join sep [x] = x"
| "py_join sep (x # y # ys) = x @ sep @ py_join sep (y # ys)"

text \<open>
  \<^verbatim>\<open>s.lower()\<close>, on the code points below 256 (A to Z, and the capital letters of
  Latin-1). The source only compares the result with \<^verbatim>\<open>"accept"\<close>; above 255 no code
  point has a lower-case form made of the letters a, c, e, p, t, so the comparison is
  decided as in Python for every string.
\<close>

definition lower_char :: "pychar \<Rightarrow> pychar" where
  "lower_char c =
     (if (65 \<le> c \<and> c \<le> 90) \<or> (192 \<le> c \<and> c \<le> 222 \<and> c \<noteq> 215) then c + 32 else c)"

definition py_lower :: "pystr \<Rightarrow> pystr" where
  "py_lower s = map lower_char s"


section \<open>The tables and the trace records\<close>

text \<open>The dataclasses \<^verbatim>\<open>LL\<close> and \<^verbatim>\<open>LR\<close> (lines 19 to 52); a
  \<^verbatim>\<open>dict[str, dict[str, str]]\<close> is a map of maps, read with \<^verbatim>\<open>.get\<close>.\<close>

record LL =
  ll_start_symbol :: pystr
  ll_start_rule :: pystr
  ll_table :: "pystr \<rightharpoonup> (pystr \<rightharpoonup> pystr)"

record LR =
  lr_start_state :: pystr
  lr_table :: "pystr \<rightharpoonup> (pystr \<rightharpoonup> pystr)"

text \<open>
  The \<^verbatim>\<open>ACTION\<close> column. Each constructor stands for one format string of the source
  and keeps the values the string is built from:
  \<^item> \<open>StartRule S r\<close>: \<^verbatim>\<open>f"{ll.start_symbol}->{ll.start_rule}"\<close> (line 226);
  \<^item> \<open>ACCEPTED\<close>: \<^verbatim>\<open>"ACCEPTED"\<close> (lines 233 and 305);
  \<^item> \<open>MatchAndRemove t\<close>: \<^verbatim>\<open>f"Match and remove \"{queue_item}\""\<close> (line 238);
  \<^item> \<open>Production X p\<close>: \<^verbatim>\<open>f"\"{stack_item}->{production}\""\<close> (line 244);
  \<^item> \<open>REJECTED_no_step X t\<close>: \<^verbatim>\<open>REJECTED ("X" doesn't have an action/step for "t")\<close>
    (line 249);
  \<^item> \<open>REJECTED_not_in_table X\<close>: \<^verbatim>\<open>REJECTED ("X" not found in LL(1) parsing table)\<close>
    (line 252);
  \<^item> \<open>ShiftTo a\<close>: \<^verbatim>\<open>f"Shift to \"{prev_state_action}\""\<close> (line 309);
  \<^item> \<open>Reverse a\<close>: \<^verbatim>\<open>f"Reverse \"{prev_state_action}\""\<close> (line 313);
  \<^item> \<open>REJECTED_previous_symbol\<close>: \<^verbatim>\<open>REJECTED (Previous symbol not found in compounds)\<close>
    (line 326);
  \<^item> \<open>REJECTED_incorrect t s\<close>: \<^verbatim>\<open>REJECTED (Incorrect action/step for "t" in "State_n")\<close>
    (line 334), where \<open>s\<close> is \<open>prev_state\<close> and \<open>n\<close> is
    \<^verbatim>\<open>prev_state.replace('State_', '')\<close>;
  \<^item> \<open>REJECTED_no_action s t\<close>: \<^verbatim>\<open>REJECTED ("State_n" does not have an action/step for "t")\<close>
    (line 338), with \<open>s\<close> and \<open>n\<close> as before;
  \<^item> \<open>REJECTED_state_actions\<close>:
    \<^verbatim>\<open>REJECTED (Previous state actions/steps not found in LR(1) table)\<close> (line 342);
  \<^item> \<open>REJECTED_previous_state\<close>: \<^verbatim>\<open>REJECTED (Previous state not found in compounds)\<close>
    (line 346);
  \<^item> \<open>REJECTED_symbol\<close>: \<^verbatim>\<open>REJECTED ("None" not found in compounds)\<close> (line 350);
  \<^item> \<open>REJECTED_symbols_missing\<close>:
    \<^verbatim>\<open>REJECTED (One or more symbols missing in compounds)\<close> (line 366).
\<close>

datatype action =
    StartRule pystr pystr
  | ACCEPTED
  | MatchAndRemove pystr
  | Production pystr pystr
  | REJECTED_no_step pystr pystr
  | REJECTED_not_in_table pystr
  | ShiftTo pystr
  | Reverse pystr
  | REJECTED_previous_symbol
  | REJECTED_incorrect pystr pystr
  | REJECTED_no_action pystr pystr
  | REJECTED_state_actions
  | REJECTED_previous_state
  | REJECTED_symbol
  | REJECTED_symbols_missing

text \<open>One row of the LL trace: the dictionary with the keys \<^verbatim>\<open>ACTION\<close>, \<^verbatim>\<open>NO\<close>,
  \<^verbatim>\<open>STACK\<close> and \<^verbatim>\<open>INPUT\<close>. \<^verbatim>\<open>NO\<close> is \<^verbatim>\<open>str(step_counter)\<close>, kept as the number.\<close>

record ll_output =
  ll_ACTION :: action
  ll_NO :: nat
  ll_STACK :: pystr
  ll_INPUT :: pystr


section \<open>The LL(1) simulator: \<^verbatim>\<open>evaluate_ll_input\<close>\<close>

text \<open>
  The stack is a Python list of one-character strings with its top at the end, the queue a
  list of one-character strings with its head first; both are kept as the string of their
  characters (what \<^verbatim>\<open>"".join\<close> makes of them).

  Lines 214 to 218: the state before the loop.
\<close>

definition ll_initial_queue :: "pystr \<Rightarrow> pystr" where
  "ll_initial_queue input = py_replace (ascii ''id'') ID_SYMBOL input"

definition ll_initial_stack :: pystr where
  "ll_initial_stack = ascii ''$''"

text \<open>
  Lines 223 to 253: one pass through the loop body, from \<open>stack\<close> and \<open>queue\<close> to
  \<^verbatim>\<open>ACTION\<close>, \<^verbatim>\<open>temp_stack\<close>, \<^verbatim>\<open>temp_queue\<close> and \<^verbatim>\<open>evaluation_finished\<close>.
  \<^verbatim>\<open>temp_stack.pop()\<close> and \<^verbatim>\<open>temp_queue[0]\<close> raise on an empty list;
  \<^verbatim>\<open>temp_queue.remove(queue_item)\<close> removes the first element equal to \<open>queue_item\<close>.
\<close>

definition ll_step ::
  "LL \<Rightarrow> nat \<Rightarrow> pystr \<Rightarrow> pystr \<Rightarrow> py_error + (action \<times> pystr \<times> pystr \<times> bool)" where
  "ll_step ll step_counter stack queue =
     (if step_counter = 1 then
        Inr (StartRule (ll_start_symbol ll) (ll_start_rule ll),
             stack @ rev (ll_start_rule ll), queue, False)
      else if stack = [] then Inl IndexError
      else if queue = [] then Inl IndexError
      else
        let stack_item = [last stack];
            temp_stack = butlast stack;
            queue_item = [hd queue]
        in if stack_item = ascii ''$'' \<and> queue_item = ascii ''$'' then
             Inr (ACCEPTED, temp_stack, queue, True)
           else if stack_item = queue_item then
             Inr (MatchAndRemove queue_item, temp_stack, remove1 (hd queue) queue, False)
           else
             (case ll_table ll stack_item of
                Some productions \<Rightarrow>
                  (case productions queue_item of
                     Some production \<Rightarrow>
                       Inr (Production stack_item production,
                            (if production \<noteq> EPSILON then temp_stack @ rev production
                             else temp_stack),
                            queue, False)
                   | None \<Rightarrow> Inr (REJECTED_no_step stack_item queue_item, temp_stack, queue, True))
              | None \<Rightarrow> Inr (REJECTED_not_in_table stack_item, temp_stack, queue, True)))"

text \<open>
  Lines 221 to 261: the \<^verbatim>\<open>while not evaluation_finished\<close> loop. Each pass appends the
  row built from \<open>stack\<close> and \<open>queue\<close> as they were when the pass began (lines 254 to
  257) and then commits \<open>temp_stack\<close> and \<open>temp_queue\<close>. The loop has no bound in the
  source: \<open>fuel\<close> counts the passes still allowed, \<open>None\<close> says that they did not
  suffice, \<open>Some (Inl e)\<close> that the run raised \<open>e\<close>, and \<open>Some (Inr outputs)\<close>
  that it returned \<open>outputs\<close>.
\<close>

fun ll_loop ::
  "nat \<Rightarrow> LL \<Rightarrow> nat \<Rightarrow> pystr \<Rightarrow> pystr \<Rightarrow> ll_output list \<Rightarrow> (py_error + ll_output list) option" where
  "ll_loop 0 ll step_counter stack queue outputs = None"
| "ll_loop (Suc fuel) ll step_counter stack queue outputs =
     (case ll_step ll step_counter stack queue of
        Inl e \<Rightarrow> Some (Inl e)
      | Inr (act, temp_stack, temp_queue, evaluation_finished) \<Rightarrow>
          let output = \<lparr>ll_ACTION = act, ll_NO = step_counter, ll_STACK = stack, ll_INPUT = queue\<rparr>
          in if evaluation_finished then Some (Inr (outputs @ [output]))
             else ll_loop fuel ll (step_counter + 1) temp_stack temp_queue (outputs @ [output]))"

definition evaluate_ll_input :: "nat \<Rightarrow> LL \<Rightarrow> pystr \<Rightarrow> (py_error + ll_output list) option" where
  "evaluate_ll_input fuel ll input =
     ll_loop fuel ll 1 ll_initial_stack (ll_initial_queue input) []"

text \<open>The rows that end a run (\<^verbatim>\<open>evaluation_finished = True\<close>, lines 234, 250, 253).\<close>

fun ll_final :: "action \<Rightarrow> bool" where
  "ll_final ACCEPTED = True"
| "ll_final (REJECTED_no_step X t) = True"
| "ll_final (REJECTED_not_in_table X) = True"
| "ll_final a = False"

text \<open>
  \<open>ll_rows ll k stack queue rows\<close>: the rows are those of a finished run of the loop
  that enters its pass number \<open>k\<close> with \<open>stack\<close> and \<open>queue\<close>. Each row shows the
  state its pass began with, and the pass leads to the state the next row shows.
\<close>

fun ll_rows :: "LL \<Rightarrow> nat \<Rightarrow> pystr \<Rightarrow> pystr \<Rightarrow> ll_output list \<Rightarrow> bool" where
  "ll_rows ll k stack queue [] = False"
| "ll_rows ll k stack queue (r # rs) =
     (case ll_step ll k stack queue of
        Inl e \<Rightarrow> False
      | Inr (act, temp_stack, temp_queue, evaluation_finished) \<Rightarrow>
          r = \<lparr>ll_ACTION = act, ll_NO = k, ll_STACK = stack, ll_INPUT = queue\<rparr> \<and>
          (if evaluation_finished then rs = []
           else ll_rows ll (k + 1) temp_stack temp_queue rs))"


section \<open>The LR(1) simulator: \<^verbatim>\<open>evaluate_lr_input\<close>\<close>

text \<open>
  A compound is a dictionary with the keys \<^verbatim>\<open>state\<close> and \<^verbatim>\<open>symbol\<close>, either of which
  may be absent (\<^verbatim>\<open>.get\<close> then gives \<^verbatim>\<open>None\<close>). Two compounds are equal, as Python
  dictionaries are, when they have the same keys with the same values.
\<close>

datatype compound = Compound (state: "pystr option") (symbol: "pystr option")

text \<open>One row of the LR trace. \<^verbatim>\<open>READ\<close> and \<^verbatim>\<open>ACTION\<close> are keys that a pass may
  leave unset.\<close>

record lr_output =
  lr_READ :: "pystr option"
  lr_ACTION :: "action option"
  lr_NO :: nat
  lr_STATE_STACK :: pystr
  lr_INPUT :: pystr

text \<open>Lines 284 to 287: the start state with the empty symbol, then one compound without
  a state per character of the input.\<close>

definition lr_initial_compounds :: "LR \<Rightarrow> pystr \<Rightarrow> compound list" where
  "lr_initial_compounds lr input =
     Compound (Some (lr_start_state lr)) (Some []) # map (\<lambda>c. Compound None (Some [c])) input"

text \<open>Lines 293, 294, 353, 354: the index of the first compound without a state. Every
  branch taken at that compound ends in \<^verbatim>\<open>break\<close>, so no later compound is looked at.\<close>

fun first_pending :: "compound list \<Rightarrow> nat option" where
  "first_pending [] = None"
| "first_pending (c # cs) =
     (if state c = None then Some 0 else map_option Suc (first_pending cs))"

text \<open>
  Lines 317 to 328: the loop over \<open>j\<close> in \<^verbatim>\<open>range(1, len(symbols_to_delete) + 1)\<close>.
  The result is \<open>compounds_to_delete\<close>, \<open>action_is_valid\<close> and whether line 326 set
  \<^verbatim>\<open>REJECTED (Previous symbol not found in compounds)\<close> and \<open>evaluation_finished\<close>.
  \<^verbatim>\<open>temp_compounds[i - j]\<close> is Python indexing: below zero it counts from the end.
\<close>

fun scan_symbols ::
  "compound list \<Rightarrow> nat \<Rightarrow> pystr \<Rightarrow> nat list \<Rightarrow> compound list
     \<Rightarrow> py_error + (compound list \<times> bool \<times> bool)" where
  "scan_symbols temp_compounds i symbols_to_delete [] compounds_to_delete =
     Inr (compounds_to_delete, True, False)"
| "scan_symbols temp_compounds i symbols_to_delete (j # js) compounds_to_delete =
     (case py_index temp_compounds (int i - int j) of
        Inl e \<Rightarrow> Inl e
      | Inr c \<Rightarrow>
          (case symbol c of
             Some temp_symbol \<Rightarrow>
               if temp_symbol \<noteq> [symbols_to_delete ! (length symbols_to_delete - j)]
               then Inr (compounds_to_delete, False, False)
               else scan_symbols temp_compounds i symbols_to_delete js (compounds_to_delete @ [c])
           | None \<Rightarrow> Inr (compounds_to_delete, True, True)))"

text \<open>
  Lines 313 to 332, the branch of an action that contains \<^verbatim>\<open>->\<close>: the right-hand side is
  \<^verbatim>\<open>prev_state_action[3:]\<close>, the left-hand symbol \<^verbatim>\<open>prev_state_action[0]\<close> (the action
  is not empty here). When \<open>action_is_valid\<close> still holds, every compound equal to a
  member of \<open>compounds_to_delete\<close> is dropped and the new compound is inserted at index
  \<^verbatim>\<open>len(temp_compounds) - 1\<close>. The result is \<^verbatim>\<open>ACTION\<close>, \<open>temp_compounds\<close> and
  \<open>evaluation_finished\<close>.
\<close>

definition lr_reduce ::
  "compound list \<Rightarrow> nat \<Rightarrow> pystr \<Rightarrow> py_error + (action \<times> compound list \<times> bool)" where
  "lr_reduce temp_compounds i prev_state_action =
     (let symbols_to_delete = drop 3 prev_state_action
      in case scan_symbols temp_compounds i symbols_to_delete
                [1..<Suc (length symbols_to_delete)] [] of
           Inl e \<Rightarrow> Inl e
         | Inr (compounds_to_delete, action_is_valid, rejected) \<Rightarrow>
             Inr (if rejected then REJECTED_previous_symbol else Reverse prev_state_action,
                  if action_is_valid then
                    (let kept = filter (\<lambda>c. c \<notin> set compounds_to_delete) temp_compounds
                     in py_insert (int (length kept) - 1)
                          (Compound None (Some (take 1 prev_state_action))) kept)
                  else temp_compounds,
                  rejected))"

text \<open>
  Lines 293 to 354: the \<^verbatim>\<open>for\<close> loop of one pass, from \<open>compounds\<close> to \<^verbatim>\<open>READ\<close>,
  \<^verbatim>\<open>ACTION\<close>, \<open>temp_compounds\<close> and \<open>evaluation_finished\<close>. When no compound lacks
  a state the loop ends without setting anything.
\<close>

definition lr_scan ::
  "LR \<Rightarrow> compound list
     \<Rightarrow> py_error + (pystr option \<times> action option \<times> compound list \<times> bool)" where
  "lr_scan lr compounds =
     (case first_pending compounds of
        None \<Rightarrow> Inr (None, None, compounds, False)
      | Some i \<Rightarrow>
          (case symbol (compounds ! i) of
             None \<Rightarrow> Inr (None, Some REJECTED_symbol, compounds, True)
           | Some symb \<Rightarrow>
               (case py_index compounds (int i - 1) of
                  Inl e \<Rightarrow> Inl e
                | Inr prev \<Rightarrow>
                    (case state prev of
                       None \<Rightarrow> Inr (Some symb, Some REJECTED_previous_state, compounds, True)
                     | Some prev_state \<Rightarrow>
                         (case lr_table lr prev_state of
                            None \<Rightarrow> Inr (Some symb, Some REJECTED_state_actions, compounds, True)
                          | Some prev_state_actions \<Rightarrow>
                              (case prev_state_actions symb of
                                 None \<Rightarrow>
                                   Inr (Some symb, Some (REJECTED_no_action prev_state symb),
                                        compounds, True)
                               | Some prev_state_action \<Rightarrow>
                                   if py_lower prev_state_action = ascii ''accept'' then
                                     Inr (Some symb, Some ACCEPTED, compounds, True)
                                   else if py_startswith prev_state_action (ascii ''State_'') then
                                     Inr (Some symb, Some (ShiftTo prev_state_action),
                                          compounds[i := Compound (Some prev_state_action) (Some symb)],
                                          False)
                                   else if py_contains (ascii ''->'') prev_state_action then
                                     (case lr_reduce compounds i prev_state_action of
                                        Inl e \<Rightarrow> Inl e
                                      | Inr (act, temp_compounds, evaluation_finished) \<Rightarrow>
                                          Inr (Some symb, Some act, temp_compounds,
                                               evaluation_finished))
                                   else
                                     Inr (Some symb, Some (REJECTED_incorrect symb prev_state),
                                          compounds, True)))))))"

text \<open>
  Lines 356 to 368: the two columns, read from \<open>compounds\<close> as the pass found them. The
  flag says that a compound without a symbol was met (line 366), which ends the loop
  over the compounds.
\<close>

fun lr_columns ::
  "compound list \<Rightarrow> pystr list \<Rightarrow> pystr list \<Rightarrow> pystr list \<times> pystr list \<times> bool" where
  "lr_columns [] state_stack_list input_stack_list =
     (state_stack_list, input_stack_list, False)"
| "lr_columns (c # cs) state_stack_list input_stack_list =
     (let states =
            (case state c of
               Some s \<Rightarrow> state_stack_list @ [py_replace (ascii ''State_'') [] s]
             | None \<Rightarrow> state_stack_list)
      in case symbol c of
           Some symb \<Rightarrow> lr_columns cs states (input_stack_list @ [symb])
         | None \<Rightarrow> (states, input_stack_list, True))"

text \<open>Lines 291 to 372: one pass of the \<^verbatim>\<open>while\<close> loop: the row it appends, the compounds
  it commits and \<open>evaluation_finished\<close>.\<close>

definition lr_step ::
  "LR \<Rightarrow> nat \<Rightarrow> compound list \<Rightarrow> py_error + (lr_output \<times> compound list \<times> bool)" where
  "lr_step lr step_counter compounds =
     (case lr_scan lr compounds of
        Inl e \<Rightarrow> Inl e
      | Inr (read, act, temp_compounds, evaluation_finished) \<Rightarrow>
          (case lr_columns compounds [] [] of
             (state_stack_list, input_stack_list, missing) \<Rightarrow>
               Inr (\<lparr>lr_READ = read,
                     lr_ACTION = (if missing then Some REJECTED_symbols_missing else act),
                     lr_NO = step_counter,
                     lr_STATE_STACK = py_join (ascii '' '') state_stack_list,
                     lr_INPUT = concat input_stack_list\<rparr>,
                    temp_compounds, evaluation_finished \<or> missing)))"

text \<open>Lines 290 to 374: the loop, with \<open>fuel\<close> as for the LL simulator.\<close>

fun lr_loop ::
  "nat \<Rightarrow> LR \<Rightarrow> nat \<Rightarrow> compound list \<Rightarrow> lr_output list \<Rightarrow> (py_error + lr_output list) option" where
  "lr_loop 0 lr step_counter compounds outputs = None"
| "lr_loop (Suc fuel) lr step_counter compounds outputs =
     (case lr_step lr step_counter compounds of
        Inl e \<Rightarrow> Some (Inl e)
      | Inr (output, temp_compounds, evaluation_finished) \<Rightarrow>
          if evaluation_finished then Some (Inr (outputs @ [output]))
          else lr_loop fuel lr (step_counter + 1) temp_compounds (outputs @ [output]))"

definition evaluate_lr_input :: "nat \<Rightarrow> LR \<Rightarrow> pystr \<Rightarrow> (py_error + lr_output list) option" where
  "evaluate_lr_input fuel lr input = lr_loop fuel lr 1 (lr_initial_compounds lr input) []"


section \<open>Tables used as examples\<close>

text \<open>
  Each is a table that \<^verbatim>\<open>generate_ll_table\<close> or \<^verbatim>\<open>generate_lr_table\<close> builds from a
  file: the start rule is the first production of the first row, the start state the
  first row's state.

  \<open>ll_ident\<close> is the table of the rule \<open>S -> id\<close>, with \<open>id\<close> already replaced by
  \<open>#\<close>; \<open>ll_ab\<close> that of \<open>S -> aS | b\<close>; \<open>ll_looping\<close> that of \<open>S -> S\<close>.
\<close>

definition ll_ident :: LL where
  "ll_ident = \<lparr>ll_start_symbol = ascii ''S'', ll_start_rule = ascii ''#'',
     ll_table = [ascii ''S'' \<mapsto> [ascii ''#'' \<mapsto> ascii ''#'']]\<rparr>"

definition ll_ab :: LL where
  "ll_ab = \<lparr>ll_start_symbol = ascii ''S'', ll_start_rule = ascii ''aS'',
     ll_table = [ascii ''S'' \<mapsto> [ascii ''a'' \<mapsto> ascii ''aS'', ascii ''b'' \<mapsto> ascii ''b'']]\<rparr>"

definition ll_looping :: LL where
  "ll_looping = \<lparr>ll_start_symbol = ascii ''S'', ll_start_rule = ascii ''S'',
     ll_table = [ascii ''S'' \<mapsto> [ascii ''a'' \<mapsto> ascii ''S'']]\<rparr>"

text \<open>
  \<open>lr_accepting\<close>: state 0 shifts \<open>a\<close> to state 1 and \<open>S\<close> to state 2, state 1 reduces
  by \<open>S->a\<close> on \<open>$\<close>, state 2 accepts on \<open>$\<close>. \<open>lr_mismatch\<close>: state 0 reduces by
  \<open>X->b\<close> on \<open>a\<close>. \<open>lr_early_reduce\<close>: state 0 shifts \<open>a\<close> to state 1, which reduces
  by \<open>X->a\<close> on \<open>b\<close>. \<open>lr_shift_only\<close>: state 0 shifts \<open>a\<close> to state 1.
  \<open>lr_both_markers\<close>: the action of state 0 on \<open>a\<close> is the string \<open>State_->\<close>.
\<close>

definition lr_accepting :: LR where
  "lr_accepting = \<lparr>lr_start_state = ascii ''State_0'',
     lr_table = [ascii ''State_0'' \<mapsto> [ascii ''a'' \<mapsto> ascii ''State_1'', ascii ''S'' \<mapsto> ascii ''State_2''],
                 ascii ''State_1'' \<mapsto> [ascii ''$'' \<mapsto> ascii ''S->a''],
                 ascii ''State_2'' \<mapsto> [ascii ''$'' \<mapsto> ascii ''Accept'']]\<rparr>"

definition lr_mismatch :: LR where
  "lr_mismatch = \<lparr>lr_start_state = ascii ''State_0'',
     lr_table = [ascii ''State_0'' \<mapsto> [ascii ''a'' \<mapsto> ascii ''X->b'']]\<rparr>"

definition lr_early_reduce :: LR where
  "lr_early_reduce = \<lparr>lr_start_state = ascii ''State_0'',
     lr_table = [ascii ''State_0'' \<mapsto> [ascii ''a'' \<mapsto> ascii ''State_1''],
                 ascii ''State_1'' \<mapsto> [ascii ''b'' \<mapsto> ascii ''X->a'']]\<rparr>"

definition lr_shift_only :: LR where
  "lr_shift_only = \<lparr>lr_start_state = ascii ''State_0'',
     lr_table = [ascii ''State_0'' \<mapsto> [ascii ''a'' \<mapsto> ascii ''State_1'']]\<rparr>"

definition lr_both_markers :: LR where
  "lr_both_markers = \<lparr>lr_start_state = ascii ''State_0'',
     lr_table = [ascii ''State_0'' \<mapsto> [ascii ''a'' \<mapsto> ascii ''State_->'']]\<rparr>"


section \<open>Facts about the Python operations and the LL loop\<close>

lemma ascii_dollar: "ascii ''$'' = [36]"
  by (simp add: ascii_def)


lemma py_contains_single: "py_contains [c] s \<longleftrightarrow> c \<in> set s"
  by (induction s) auto

lemma length_py_replace_id:
  "length (py_replace (ascii ''id'') ID_SYMBOL input) \<le> length input"
proof (induction "ascii ''id''" ID_SYMBOL input rule: py_replace.induct)
  case 1
  then show ?case by simp
next
  case (2 c cs)
  show ?case
  proof (cases "ascii ''id'' \<noteq> [] \<and> take (length (ascii ''id'')) (c # cs) = ascii ''id''")
    case True
    with 2(1) have "length (py_replace (ascii ''id'') ID_SYMBOL (drop (length (ascii ''id'') - 1) cs))
        \<le> length (drop (length (ascii ''id'') - 1) cs)" by blast
    moreover from True have "cs \<noteq> []"
      by (auto simp: ascii_def)
    ultimately show ?thesis using True by (cases cs) (simp_all add: ascii_def ID_SYMBOL_def)
  next
    case False
    with 2(2) show ?thesis by auto
  qed
qed

lemma ll_step_final: "ll_step ll k s q = Inr (a, s', q', fin) \<Longrightarrow> fin = ll_final a"
  by (auto simp: ll_step_def Let_def split: if_splits option.splits)

lemma ll_step_queue: "ll_step ll k s q = Inr (a, s', q', fin) \<Longrightarrow> set q' \<subseteq> set q"
  using set_remove1_subset[of "hd q" q]
  by (auto simp: ll_step_def Let_def split: if_splits option.splits)

lemma ll_step_accepted:
  "ll_step ll k s q = Inr (ACCEPTED, s', q', fin) \<Longrightarrow>
     k \<noteq> 1 \<and> s \<noteq> [] \<and> q \<noteq> [] \<and> [last s] = ascii ''$'' \<and> [hd q] = ascii ''$''"
  by (auto simp: ll_step_def Let_def split: if_splits option.splits)

lemma ll_loop_rows:
  "ll_loop fuel ll k s q outs = Some (Inr res) \<Longrightarrow> \<exists>rows. res = outs @ rows \<and> ll_rows ll k s q rows"
proof (induction fuel arbitrary: k s q outs)
  case 0
  then show ?case by simp
next
  case (Suc fuel)
  from Suc.prems obtain a s' q' fin where step: "ll_step ll k s q = Inr (a, s', q', fin)"
    by (auto split: sum.splits)
  let ?r = "\<lparr>ll_ACTION = a, ll_NO = k, ll_STACK = s, ll_INPUT = q\<rparr>"
  show ?case
  proof (cases fin)
    case True
    with Suc.prems step have "res = outs @ [?r]" by simp
    moreover have "ll_rows ll k s q [?r]" using step True by simp
    ultimately show ?thesis by blast
  next
    case False
    with Suc.prems step have "ll_loop fuel ll (k + 1) s' q' (outs @ [?r]) = Some (Inr res)"
      by simp
    from Suc.IH[OF this] obtain rows where
      "res = (outs @ [?r]) @ rows" "ll_rows ll (k + 1) s' q' rows" by blast
    then have "res = outs @ (?r # rows)" "ll_rows ll k s q (?r # rows)"
      using step False by simp_all
    then show ?thesis by blast
  qed
qed

lemma ll_loop_mono:
  "ll_loop n ll k s q outs = Some r \<Longrightarrow> ll_loop (n + m) ll k s q outs = Some r"
proof (induction n arbitrary: k s q outs)
  case 0
  then show ?case by simp
next
  case (Suc n)
  then show ?case
    by (auto simp: Let_def split: sum.splits prod.splits if_splits)
qed

lemma ll_rows_nth:
  "ll_rows ll k s q rows \<Longrightarrow> n < length rows \<Longrightarrow>
     \<exists>s' q' fin. ll_step ll (k + n) (ll_STACK (rows ! n)) (ll_INPUT (rows ! n))
                    = Inr (ll_ACTION (rows ! n), s', q', fin) \<and>
       ll_NO (rows ! n) = k + n \<and>
       (if Suc n < length rows
        then \<not> fin \<and> ll_STACK (rows ! Suc n) = s' \<and> ll_INPUT (rows ! Suc n) = q'
        else fin)"
proof (induction rows arbitrary: k s q n)
  case Nil
  then show ?case by simp
next
  case (Cons r rs)
  from Cons.prems(1) obtain a s' q' fin where
    step: "ll_step ll k s q = Inr (a, s', q', fin)"
    and r: "r = \<lparr>ll_ACTION = a, ll_NO = k, ll_STACK = s, ll_INPUT = q\<rparr>"
    and rest: "if fin then rs = [] else ll_rows ll (k + 1) s' q' rs"
    by (auto split: sum.splits)
  show ?case
  proof (cases n)
    case 0
    show ?thesis
    proof (cases fin)
      case True
      with rest step r 0 show ?thesis by auto
    next
      case False
      with rest have rows: "ll_rows ll (k + 1) s' q' rs" by simp
      then obtain r' rs' where rs: "rs = r' # rs'" by (cases rs) auto
      with rows have "ll_STACK r' = s'" "ll_INPUT r' = q'"
        by (auto split: sum.splits)
      with step r 0 False rs show ?thesis by auto
    qed
  next
    case (Suc n')
    with Cons.prems(2) have n': "n' < length rs" by simp
    then have "rs \<noteq> []" by auto
    with rest have rows: "ll_rows ll (k + 1) s' q' rs" by (auto split: if_splits)
    from Cons.IH[OF rows n'] obtain s2 q2 fin2 where
      "ll_step ll (k + 1 + n') (ll_STACK (rs ! n')) (ll_INPUT (rs ! n'))
         = Inr (ll_ACTION (rs ! n'), s2, q2, fin2)"
      "ll_NO (rs ! n') = k + 1 + n'"
      "if Suc n' < length rs
       then \<not> fin2 \<and> ll_STACK (rs ! Suc n') = s2 \<and> ll_INPUT (rs ! Suc n') = q2
       else fin2"
      by blast
    then show ?thesis
      unfolding Suc by (intro exI[of _ s2] exI[of _ q2] exI[of _ fin2]) simp
  qed
qed

lemma ll_rows_hd:
  "ll_rows ll k s q rows \<Longrightarrow> rows \<noteq> [] \<and> ll_STACK (hd rows) = s \<and> ll_INPUT (hd rows) = q \<and> ll_NO (hd rows) = k"
  by (cases rows) (auto split: sum.splits)

lemma ll_rows_input:
  "ll_rows ll k s q rows \<Longrightarrow> r \<in> set rows \<Longrightarrow> set (ll_INPUT r) \<subseteq> set q"
proof (induction rows arbitrary: k s q)
  case Nil
  then show ?case by simp
next
  case (Cons r0 rs)
  from Cons.prems(1) obtain a s' q' fin where
    step: "ll_step ll k s q = Inr (a, s', q', fin)"
    and r: "r0 = \<lparr>ll_ACTION = a, ll_NO = k, ll_STACK = s, ll_INPUT = q\<rparr>"
    and rest: "if fin then rs = [] else ll_rows ll (k + 1) s' q' rs"
    by (auto split: sum.splits)
  show ?case
  proof (cases "r = r0")
    case True
    with r show ?thesis by simp
  next
    case False
    with Cons.prems(2) have mem: "r \<in> set rs" by simp
    then have "rs \<noteq> []" by auto
    with rest have "ll_rows ll (k + 1) s' q' rs" by (auto split: if_splits)
    from Cons.IH[OF this mem] ll_step_queue[OF step] show ?thesis by blast
  qed
qed

lemma ll_step_no_step:
  "ll_step ll k s q = Inr (REJECTED_no_step X t, s', q', fin) \<Longrightarrow>
     X = [last s] \<and> t = [hd q] \<and> (\<exists>row. ll_table ll X = Some row \<and> row t = None)"
  by (auto simp: ll_step_def Let_def split: if_splits option.splits)

lemma ll_step_not_in_table:
  "ll_step ll k s q = Inr (REJECTED_not_in_table X, s', q', fin) \<Longrightarrow>
     X = [last s] \<and> ll_table ll X = None"
  by (auto simp: ll_step_def Let_def split: if_splits option.splits)

lemma ll_final_cases:
  "ll_final a \<Longrightarrow> a = ACCEPTED \<or> (\<exists>X t. a = REJECTED_no_step X t) \<or> (\<exists>X. a = REJECTED_not_in_table X)"
  by (cases a) simp_all

lemma ll_looping_stuck:
  "2 \<le> k \<Longrightarrow> ll_loop fuel ll_looping k (ascii ''$S'') (ascii ''a$'') outs = None"
proof (induction fuel arbitrary: k outs)
  case 0
  then show ?case by simp
next
  case (Suc fuel)
  from Suc.prems have "ll_step ll_looping k (ascii ''$S'') (ascii ''a$'')
      = Inr (Production (ascii ''S'') (ascii ''S''), ascii ''$S'', ascii ''a$'', False)"
    by (simp add: ll_step_def ll_looping_def ascii_def EPSILON_def Let_def)
  with Suc.IH[of "k + 1"] Suc.prems show ?case by simp
qed


section \<open>The LL(1) simulator: the claims\<close>

text \<open>
  Claim C3, as amended. Before the first pass the stack holds only the end marker
  \<open>$\<close>, and the queue holds the characters of the input string after every \<open>id\<close>
  has been replaced by \<open>#\<close>: nothing is appended to it, so it is never longer than
  the input and it ends in \<open>$\<close> only when the input string does. The first row of
  every returned trace shows this stack and this queue.
\<close>

theorem ll_initial_state:
  "ll_initial_stack = ascii ''$'' \<and>
   ll_initial_queue input = py_replace (ascii ''id'') (ascii ''#'') input \<and>
   length (ll_initial_queue input) \<le> length input \<and>
   (evaluate_ll_input fuel ll input = Some (Inr outs) \<longrightarrow>
      outs \<noteq> [] \<and> ll_STACK (hd outs) = ascii ''$'' \<and>
      ll_INPUT (hd outs) = py_replace (ascii ''id'') (ascii ''#'') input)"
proof -
  have "evaluate_ll_input fuel ll input = Some (Inr outs) \<Longrightarrow>
      outs \<noteq> [] \<and> ll_STACK (hd outs) = ascii ''$'' \<and>
      ll_INPUT (hd outs) = py_replace (ascii ''id'') (ascii ''#'') input"
  proof -
    assume "evaluate_ll_input fuel ll input = Some (Inr outs)"
    then have "ll_rows ll 1 ll_initial_stack (ll_initial_queue input) outs"
      using ll_loop_rows[of fuel ll 1 ll_initial_stack "ll_initial_queue input" "[]" outs]
      by (simp add: evaluate_ll_input_def)
    from ll_rows_hd[OF this] show ?thesis
      by (simp add: ll_initial_stack_def ll_initial_queue_def ID_SYMBOL_def)
  qed
  moreover have "length (ll_initial_queue input) \<le> length input"
    unfolding ll_initial_queue_def by (rule length_py_replace_id)
  ultimately show ?thesis
    by (simp add: ll_initial_stack_def ll_initial_queue_def ID_SYMBOL_def)
qed

text \<open>The run on the input \<open>b\<close> with the table of \<open>S -> aS | b\<close> returns two rows,
  the first of which shows the queue \<open>b\<close>.\<close>

theorem ll_initial_state_witness:
  "evaluate_ll_input 2 ll_ab (ascii ''b'') = Some (Inr
     [\<lparr>ll_ACTION = StartRule (ascii ''S'') (ascii ''aS''), ll_NO = 1,
        ll_STACK = ascii ''$'', ll_INPUT = ascii ''b''\<rparr>,
      \<lparr>ll_ACTION = REJECTED_not_in_table (ascii ''a''), ll_NO = 2,
        ll_STACK = ascii ''$Sa'', ll_INPUT = ascii ''b''\<rparr>]) \<and>
   ll_INPUT (hd
     [\<lparr>ll_ACTION = StartRule (ascii ''S'') (ascii ''aS''), ll_NO = 1,
        ll_STACK = ascii ''$'', ll_INPUT = ascii ''b''\<rparr>,
      \<lparr>ll_ACTION = REJECTED_not_in_table (ascii ''a''), ll_NO = 2,
        ll_STACK = ascii ''$Sa'', ll_INPUT = ascii ''b''\<rparr>])
     = py_replace (ascii ''id'') (ascii ''#'') (ascii ''b'')"
proof -
  let ?outs = "[\<lparr>ll_ACTION = StartRule (ascii ''S'') (ascii ''aS''), ll_NO = 1,
        ll_STACK = ascii ''$'', ll_INPUT = ascii ''b''\<rparr>,
      \<lparr>ll_ACTION = REJECTED_not_in_table (ascii ''a''), ll_NO = 2,
        ll_STACK = ascii ''$Sa'', ll_INPUT = ascii ''b''\<rparr>]"
  have run: "evaluate_ll_input 2 ll_ab (ascii ''b'') = Some (Inr ?outs)"
    by code_simp
  with ll_initial_state[of "ascii ''b''" 2 ll_ab ?outs] show ?thesis
    by blast
qed

text \<open>Claim C3 as it is stated fails: for the input \<open>a\<close> the queue is \<open>a\<close>, not
  \<open>a$\<close>.\<close>

theorem ll_initial_queue_counterexample:
  "ll_initial_queue (ascii ''a'') = ascii ''a'' \<and>
   ll_initial_queue (ascii ''a'') \<noteq> ascii ''a'' @ ascii ''$''"
  by (simp add: ll_initial_queue_def ascii_def ID_SYMBOL_def)

text \<open>
  Claim C4, as amended. Whenever the LL simulation returns a trace, the trace is not
  empty, its last row is \<open>ACCEPTED\<close>, or the rejection of a non-terminal that has a row
  in the table but no entry for the lookahead, or the rejection of a symbol that has no
  row in the table, and no earlier row is any of these. (That the simulation returns is
  not part of the statement: see the counterexample.)
\<close>

theorem ll_trace_ends:
  assumes "evaluate_ll_input fuel ll input = Some (Inr outs)"
  shows "outs \<noteq> [] \<and>
    (ll_ACTION (last outs) = ACCEPTED \<or>
     (\<exists>X t row. ll_ACTION (last outs) = REJECTED_no_step X t \<and>
                ll_table ll X = Some row \<and> row t = None) \<or>
     (\<exists>X. ll_ACTION (last outs) = REJECTED_not_in_table X \<and> ll_table ll X = None)) \<and>
    (\<forall>n. Suc n < length outs \<longrightarrow> \<not> ll_final (ll_ACTION (outs ! n)))"
proof -
  from assms have rows: "ll_rows ll 1 ll_initial_stack (ll_initial_queue input) outs"
    using ll_loop_rows[of fuel ll 1 ll_initial_stack "ll_initial_queue input" "[]" outs]
    by (simp add: evaluate_ll_input_def)
  then have ne: "outs \<noteq> []" by (cases outs) auto
  then have lt: "length outs - 1 < length outs" by simp
  from ll_rows_nth[OF rows lt] ne obtain s' q' where
    step: "ll_step ll (1 + (length outs - 1)) (ll_STACK (last outs)) (ll_INPUT (last outs))
             = Inr (ll_ACTION (last outs), s', q', True)"
    by (auto simp: last_conv_nth)
  from ll_step_final[OF step] have "ll_final (ll_ACTION (last outs))" by simp
  from ll_final_cases[OF this] ll_step_no_step ll_step_not_in_table step
  have "ll_ACTION (last outs) = ACCEPTED \<or>
     (\<exists>X t row. ll_ACTION (last outs) = REJECTED_no_step X t \<and>
                ll_table ll X = Some row \<and> row t = None) \<or>
     (\<exists>X. ll_ACTION (last outs) = REJECTED_not_in_table X \<and> ll_table ll X = None)"
    by metis
  moreover have "\<not> ll_final (ll_ACTION (outs ! n))" if "Suc n < length outs" for n
  proof -
    from that have "n < length outs" by simp
    from ll_rows_nth[OF rows this] that obtain s2 q2 where
      "ll_step ll (1 + n) (ll_STACK (outs ! n)) (ll_INPUT (outs ! n))
         = Inr (ll_ACTION (outs ! n), s2, q2, False)"
      by auto
    from ll_step_final[OF this] show ?thesis by simp
  qed
  ultimately show ?thesis using ne by blast
qed

text \<open>The run on \<open>ab$\<close> with the table of \<open>S -> aS | b\<close> returns five rows; the
  fourth is not a final one.\<close>

theorem ll_trace_ends_witness:
  "evaluate_ll_input 5 ll_ab (ascii ''ab$'') = Some (Inr
     [\<lparr>ll_ACTION = StartRule (ascii ''S'') (ascii ''aS''), ll_NO = 1,
        ll_STACK = ascii ''$'', ll_INPUT = ascii ''ab$''\<rparr>,
      \<lparr>ll_ACTION = MatchAndRemove (ascii ''a''), ll_NO = 2,
        ll_STACK = ascii ''$Sa'', ll_INPUT = ascii ''ab$''\<rparr>,
      \<lparr>ll_ACTION = Production (ascii ''S'') (ascii ''b''), ll_NO = 3,
        ll_STACK = ascii ''$S'', ll_INPUT = ascii ''b$''\<rparr>,
      \<lparr>ll_ACTION = MatchAndRemove (ascii ''b''), ll_NO = 4,
        ll_STACK = ascii ''$b'', ll_INPUT = ascii ''b$''\<rparr>,
      \<lparr>ll_ACTION = ACCEPTED, ll_NO = 5, ll_STACK = ascii ''$'', ll_INPUT = ascii ''$''\<rparr>]) \<and>
   \<not> ll_final (ll_ACTION (
     [\<lparr>ll_ACTION = StartRule (ascii ''S'') (ascii ''aS''), ll_NO = 1,
        ll_STACK = ascii ''$'', ll_INPUT = ascii ''ab$''\<rparr>,
      \<lparr>ll_ACTION = MatchAndRemove (ascii ''a''), ll_NO = 2,
        ll_STACK = ascii ''$Sa'', ll_INPUT = ascii ''ab$''\<rparr>,
      \<lparr>ll_ACTION = Production (ascii ''S'') (ascii ''b''), ll_NO = 3,
        ll_STACK = ascii ''$S'', ll_INPUT = ascii ''b$''\<rparr>,
      \<lparr>ll_ACTION = MatchAndRemove (ascii ''b''), ll_NO = 4,
        ll_STACK = ascii ''$b'', ll_INPUT = ascii ''b$''\<rparr>,
      \<lparr>ll_ACTION = ACCEPTED, ll_NO = 5, ll_STACK = ascii ''$'', ll_INPUT = ascii ''$''\<rparr>] ! 3))"
proof -
  let ?outs = "[\<lparr>ll_ACTION = StartRule (ascii ''S'') (ascii ''aS''), ll_NO = 1,
        ll_STACK = ascii ''$'', ll_INPUT = ascii ''ab$''\<rparr>,
      \<lparr>ll_ACTION = MatchAndRemove (ascii ''a''), ll_NO = 2,
        ll_STACK = ascii ''$Sa'', ll_INPUT = ascii ''ab$''\<rparr>,
      \<lparr>ll_ACTION = Production (ascii ''S'') (ascii ''b''), ll_NO = 3,
        ll_STACK = ascii ''$S'', ll_INPUT = ascii ''b$''\<rparr>,
      \<lparr>ll_ACTION = MatchAndRemove (ascii ''b''), ll_NO = 4,
        ll_STACK = ascii ''$b'', ll_INPUT = ascii ''b$''\<rparr>,
      \<lparr>ll_ACTION = ACCEPTED, ll_NO = 5, ll_STACK = ascii ''$'', ll_INPUT = ascii ''$''\<rparr>]"
  have run: "evaluate_ll_input 5 ll_ab (ascii ''ab$'') = Some (Inr ?outs)"
    by code_simp
  have "Suc 3 < length ?outs" by simp
  with ll_trace_ends[OF run] have "\<not> ll_final (ll_ACTION (?outs ! 3))" by blast
  with run show ?thesis by blast
qed

text \<open>
  Claim C4 as it is stated fails. With the table of \<open>S -> id\<close> and the input \<open>id\<close>
  the third pass pops \<open>$\<close> and reads the head of an empty queue: the run raises
  \<^verbatim>\<open>IndexError\<close> and returns no trace. With the table of \<open>S -> S\<close> and the input
  \<open>a$\<close> every pass from the second on pops \<open>S\<close> and pushes it again: no number
  of passes ends the run.
\<close>

theorem ll_not_total_counterexample:
  "(\<forall>fuel. evaluate_ll_input (3 + fuel) ll_ident (ascii ''id'') = Some (Inl IndexError)) \<and>
   (\<forall>fuel. evaluate_ll_input fuel ll_looping (ascii ''a$'') = None)"
proof -
  have "evaluate_ll_input 3 ll_ident (ascii ''id'') = Some (Inl IndexError)"
    by code_simp
  then have a: "evaluate_ll_input (3 + fuel) ll_ident (ascii ''id'') = Some (Inl IndexError)" for fuel
    unfolding evaluate_ll_input_def by (rule ll_loop_mono)
  have b: "evaluate_ll_input fuel ll_looping (ascii ''a$'') = None" for fuel
  proof (cases fuel)
    case 0
    then show ?thesis by (simp add: evaluate_ll_input_def)
  next
    case (Suc f)
    have "ll_step ll_looping 1 ll_initial_stack (ll_initial_queue (ascii ''a$''))
        = Inr (StartRule (ascii ''S'') (ascii ''S''), ascii ''$S'', ascii ''a$'', False)"
      by (simp add: ll_step_def ll_looping_def ll_initial_stack_def ll_initial_queue_def
            ID_SYMBOL_def ascii_def)
    with Suc ll_looping_stuck[of 2 f] show ?thesis
      by (simp add: evaluate_ll_input_def numeral_2_eq_2)
  qed
  from a b show ?thesis by blast
qed



text \<open>
  Claim C7. In every trace the LL simulation returns, the first row shows the initial
  stack and queue, and row number \<open>n + 1\<close> shows the stack and the queue as they were
  before its pass: applying the loop body to the shown stack and queue gives the row's
  action, and gives the stack and the queue that the next row shows (or ends the run when
  there is no next row).
\<close>

theorem ll_rows_show_state_before:
  assumes "evaluate_ll_input fuel ll input = Some (Inr outs)" and "n < length outs"
  shows "ll_STACK (outs ! 0) = ll_initial_stack \<and>
         ll_INPUT (outs ! 0) = ll_initial_queue input \<and>
         (\<exists>temp_stack temp_queue fin.
            ll_step ll (Suc n) (ll_STACK (outs ! n)) (ll_INPUT (outs ! n))
              = Inr (ll_ACTION (outs ! n), temp_stack, temp_queue, fin) \<and>
            ll_NO (outs ! n) = Suc n \<and>
            (if Suc n < length outs
             then \<not> fin \<and> ll_STACK (outs ! Suc n) = temp_stack \<and>
                  ll_INPUT (outs ! Suc n) = temp_queue
             else fin))"
proof -
  from assms(1) have rows: "ll_rows ll 1 ll_initial_stack (ll_initial_queue input) outs"
    using ll_loop_rows[of fuel ll 1 ll_initial_stack "ll_initial_queue input" "[]" outs]
    by (simp add: evaluate_ll_input_def)
  from ll_rows_hd[OF rows] have "ll_STACK (outs ! 0) = ll_initial_stack"
    "ll_INPUT (outs ! 0) = ll_initial_queue input"
    by (auto simp: hd_conv_nth)
  moreover from ll_rows_nth[OF rows assms(2)]
  have "\<exists>temp_stack temp_queue fin.
            ll_step ll (Suc n) (ll_STACK (outs ! n)) (ll_INPUT (outs ! n))
              = Inr (ll_ACTION (outs ! n), temp_stack, temp_queue, fin) \<and>
            ll_NO (outs ! n) = Suc n \<and>
            (if Suc n < length outs
             then \<not> fin \<and> ll_STACK (outs ! Suc n) = temp_stack \<and>
                  ll_INPUT (outs ! Suc n) = temp_queue
             else fin)"
    by simp
  ultimately show ?thesis by blast
qed

text \<open>In the run on \<open>ab$\<close>, the second row shows \<open>$Sa\<close> and \<open>ab$\<close>; its
  action, a match of \<open>a\<close>, leads to \<open>$S\<close> and \<open>b$\<close>, which the third row shows.\<close>

theorem ll_rows_show_state_before_witness:
  "evaluate_ll_input 5 ll_ab (ascii ''ab$'') = Some (Inr
     [\<lparr>ll_ACTION = StartRule (ascii ''S'') (ascii ''aS''), ll_NO = 1,
        ll_STACK = ascii ''$'', ll_INPUT = ascii ''ab$''\<rparr>,
      \<lparr>ll_ACTION = MatchAndRemove (ascii ''a''), ll_NO = 2,
        ll_STACK = ascii ''$Sa'', ll_INPUT = ascii ''ab$''\<rparr>,
      \<lparr>ll_ACTION = Production (ascii ''S'') (ascii ''b''), ll_NO = 3,
        ll_STACK = ascii ''$S'', ll_INPUT = ascii ''b$''\<rparr>,
      \<lparr>ll_ACTION = MatchAndRemove (ascii ''b''), ll_NO = 4,
        ll_STACK = ascii ''$b'', ll_INPUT = ascii ''b$''\<rparr>,
      \<lparr>ll_ACTION = ACCEPTED, ll_NO = 5, ll_STACK = ascii ''$'', ll_INPUT = ascii ''$''\<rparr>]) \<and>
   ll_step ll_ab 2 (ascii ''$Sa'') (ascii ''ab$'')
     = Inr (MatchAndRemove (ascii ''a''), ascii ''$S'', ascii ''b$'', False)"
proof -
  let ?outs = "[\<lparr>ll_ACTION = StartRule (ascii ''S'') (ascii ''aS''), ll_NO = 1,
        ll_STACK = ascii ''$'', ll_INPUT = ascii ''ab$''\<rparr>,
      \<lparr>ll_ACTION = MatchAndRemove (ascii ''a''), ll_NO = 2,
        ll_STACK = ascii ''$Sa'', ll_INPUT = ascii ''ab$''\<rparr>,
      \<lparr>ll_ACTION = Production (ascii ''S'') (ascii ''b''), ll_NO = 3,
        ll_STACK = ascii ''$S'', ll_INPUT = ascii ''b$''\<rparr>,
      \<lparr>ll_ACTION = MatchAndRemove (ascii ''b''), ll_NO = 4,
        ll_STACK = ascii ''$b'', ll_INPUT = ascii ''b$''\<rparr>,
      \<lparr>ll_ACTION = ACCEPTED, ll_NO = 5, ll_STACK = ascii ''$'', ll_INPUT = ascii ''$''\<rparr>]"
  have run: "evaluate_ll_input 5 ll_ab (ascii ''ab$'') = Some (Inr ?outs)"
    by code_simp
  have n: "1 < length ?outs" by simp
  from ll_rows_show_state_before[OF run n] obtain temp_stack temp_queue fin where
    step: "ll_step ll_ab (Suc 1) (ll_STACK (?outs ! 1)) (ll_INPUT (?outs ! 1))
             = Inr (ll_ACTION (?outs ! 1), temp_stack, temp_queue, fin)"
    and nxt: "if Suc 1 < length ?outs
              then \<not> fin \<and> ll_STACK (?outs ! Suc 1) = temp_stack \<and>
                   ll_INPUT (?outs ! Suc 1) = temp_queue
              else fin"
    by blast
  from nxt have "\<not> fin" "temp_stack = ascii ''$S''" "temp_queue = ascii ''b$''"
    by simp_all
  with step have "ll_step ll_ab 2 (ascii ''$Sa'') (ascii ''ab$'')
     = Inr (MatchAndRemove (ascii ''a''), ascii ''$S'', ascii ''b$'', False)"
    by (simp add: numeral_2_eq_2)
  with run show ?thesis by blast
qed

text \<open>
  Claim C10. A pass of the LL loop records \<open>ACCEPTED\<close> only when the popped stack
  symbol and the head of the queue are both \<open>$\<close>. Hence, when the input string after
  the replacement of \<open>id\<close> by \<open>#\<close> contains no \<open>$\<close> (which is the case exactly
  when the input string itself contains none), no row of a returned trace, and so not
  its last row, is \<open>ACCEPTED\<close>.
\<close>

theorem ll_accepted_needs_end_marker:
  "(ll_step ll k stack queue = Inr (ACCEPTED, temp_stack, temp_queue, fin) \<longrightarrow>
      stack \<noteq> [] \<and> queue \<noteq> [] \<and> [last stack] = ascii ''$'' \<and> [hd queue] = ascii ''$'') \<and>
   (evaluate_ll_input fuel ll input = Some (Inr outs) \<and>
      \<not> py_contains (ascii ''$'') (ll_initial_queue input) \<longrightarrow>
      outs \<noteq> [] \<and> ll_ACTION (last outs) \<noteq> ACCEPTED \<and>
      (\<forall>r. r \<in> set outs \<longrightarrow> ll_ACTION r \<noteq> ACCEPTED)) \<and>
   (py_contains (ascii ''$'') (ll_initial_queue input) \<longleftrightarrow> py_contains (ascii ''$'') input)"
proof -
  have part1: "ll_step ll k stack queue = Inr (ACCEPTED, temp_stack, temp_queue, fin) \<longrightarrow>
      stack \<noteq> [] \<and> queue \<noteq> [] \<and> [last stack] = ascii ''$'' \<and> [hd queue] = ascii ''$''"
    using ll_step_accepted by blast
  have part2: "outs \<noteq> [] \<and> ll_ACTION (last outs) \<noteq> ACCEPTED \<and>
      (\<forall>r. r \<in> set outs \<longrightarrow> ll_ACTION r \<noteq> ACCEPTED)"
    if run: "evaluate_ll_input fuel ll input = Some (Inr outs)"
    and nd: "\<not> py_contains (ascii ''$'') (ll_initial_queue input)"
  proof -
    from run have rows: "ll_rows ll 1 ll_initial_stack (ll_initial_queue input) outs"
      using ll_loop_rows[of fuel ll 1 ll_initial_stack "ll_initial_queue input" "[]" outs]
      by (simp add: evaluate_ll_input_def)
    then have ne: "outs \<noteq> []" by (cases outs) auto
    from nd have nin: "36 \<notin> set (ll_initial_queue input)"
      by (simp add: ascii_dollar py_contains_single)
    have all: "ll_ACTION r \<noteq> ACCEPTED" if mem: "r \<in> set outs" for r
    proof
      assume acc: "ll_ACTION r = ACCEPTED"
      from mem obtain n where n: "n < length outs" "r = outs ! n"
        by (auto simp: in_set_conv_nth)
      from ll_rows_nth[OF rows n(1)] n(2) acc obtain s' q' f' where
        "ll_step ll (1 + n) (ll_STACK r) (ll_INPUT r) = Inr (ACCEPTED, s', q', f')"
        by auto
      from ll_step_accepted[OF this] have "ll_INPUT r \<noteq> []" "hd (ll_INPUT r) = 36"
        by (simp_all add: ascii_dollar)
      then have "36 \<in> set (ll_INPUT r)" by (cases "ll_INPUT r") auto
      with ll_rows_input[OF rows mem] nin show False by blast
    qed
    from ne have "last outs \<in> set outs" by simp
    with all ne show ?thesis by blast
  qed
  have part3: "py_contains (ascii ''$'') (ll_initial_queue input) \<longleftrightarrow> py_contains (ascii ''$'') input"
  proof -
    have "(36::nat) \<in> set (py_replace (ascii ''id'') ID_SYMBOL input) \<longleftrightarrow> 36 \<in> set input"
    proof (induction "ascii ''id''" ID_SYMBOL input rule: py_replace.induct)
      case 1
      then show ?case by simp
    next
      case (2 c cs)
      show ?case
      proof (cases "ascii ''id'' \<noteq> [] \<and> take (length (ascii ''id'')) (c # cs) = ascii ''id''")
        case True
        then obtain cs' where cs: "cs = 100 # cs'" and c: "c = 105"
          by (cases cs) (auto simp: ascii_def)
        from 2(1)[OF True] cs have "36 \<in> set (py_replace (ascii ''id'') ID_SYMBOL cs') \<longleftrightarrow> 36 \<in> set cs'"
          by (simp add: ascii_def)
        with True cs c show ?thesis by (simp add: ascii_def ID_SYMBOL_def)
      next
        case False
        with 2(2) show ?thesis by auto
      qed
    qed
    then show ?thesis
      by (simp add: ll_initial_queue_def ascii_dollar py_contains_single)
  qed
  from part1 part2 part3 show ?thesis by blast
qed

text \<open>The input \<open>b\<close> contains no \<open>$\<close> and its trace ends in a rejection; the pass
  on stack \<open>$\<close> and queue \<open>$\<close> is an accepting one.\<close>

theorem ll_accepted_needs_end_marker_witness:
  "evaluate_ll_input 2 ll_ab (ascii ''b'') = Some (Inr
     [\<lparr>ll_ACTION = StartRule (ascii ''S'') (ascii ''aS''), ll_NO = 1,
        ll_STACK = ascii ''$'', ll_INPUT = ascii ''b''\<rparr>,
      \<lparr>ll_ACTION = REJECTED_not_in_table (ascii ''a''), ll_NO = 2,
        ll_STACK = ascii ''$Sa'', ll_INPUT = ascii ''b''\<rparr>]) \<and>
   \<not> py_contains (ascii ''$'') (ll_initial_queue (ascii ''b'')) \<and>
   ll_ACTION (last
     [\<lparr>ll_ACTION = StartRule (ascii ''S'') (ascii ''aS''), ll_NO = 1,
        ll_STACK = ascii ''$'', ll_INPUT = ascii ''b''\<rparr>,
      \<lparr>ll_ACTION = REJECTED_not_in_table (ascii ''a''), ll_NO = 2,
        ll_STACK = ascii ''$Sa'', ll_INPUT = ascii ''b''\<rparr>]) \<noteq> ACCEPTED \<and>
   ll_step ll_ab 5 (ascii ''$'') (ascii ''$'') = Inr (ACCEPTED, [], ascii ''$'', True) \<and>
   [hd (ascii ''$'')] = ascii ''$''"
proof -
  let ?outs = "[\<lparr>ll_ACTION = StartRule (ascii ''S'') (ascii ''aS''), ll_NO = 1,
        ll_STACK = ascii ''$'', ll_INPUT = ascii ''b''\<rparr>,
      \<lparr>ll_ACTION = REJECTED_not_in_table (ascii ''a''), ll_NO = 2,
        ll_STACK = ascii ''$Sa'', ll_INPUT = ascii ''b''\<rparr>]"
  have run: "evaluate_ll_input 2 ll_ab (ascii ''b'') = Some (Inr ?outs)"
    by code_simp
  have nd: "\<not> py_contains (ascii ''$'') (ll_initial_queue (ascii ''b''))"
    by code_simp
  have acc: "ll_step ll_ab 5 (ascii ''$'') (ascii ''$'') = Inr (ACCEPTED, [], ascii ''$'', True)"
    by code_simp
  from ll_accepted_needs_end_marker[where ll = ll_ab and fuel = 2 and input = "ascii ''b''"
      and outs = ?outs] run nd
  have a: "ll_ACTION (last ?outs) \<noteq> ACCEPTED" by blast
  from ll_accepted_needs_end_marker[where ll = ll_ab and k = 5 and stack = "ascii ''$''"
      and queue = "ascii ''$''" and temp_stack = "[]" and temp_queue = "ascii ''$''" and fin = True] acc
  have b: "[hd (ascii ''$'')] = ascii ''$''" by blast
  from run nd a acc b show ?thesis by blast
qed

section \<open>Facts about the LR loop and the classification of actions\<close>

lemma lr_loop_mono:
  "lr_loop n lr k cs outs = Some r \<Longrightarrow> lr_loop (n + m) lr k cs outs = Some r"
proof (induction n arbitrary: k cs outs)
  case 0
  then show ?case by simp
next
  case (Suc n)
  then show ?case
    by (auto simp: Let_def split: sum.splits prod.splits if_splits)
qed

lemma lr_loop_stuck:
  assumes "\<And>k. \<exists>out. lr_step lr k cs = Inr (out, cs, False)"
  shows "lr_loop fuel lr k cs outs = None"
proof (induction fuel arbitrary: k outs)
  case 0
  then show ?case by simp
next
  case (Suc fuel)
  from assms[of k] obtain out where "lr_step lr k cs = Inr (out, cs, False)" by blast
  with Suc.IH show ?case by simp
qed

lemma startswith_State_not_accept:
  assumes "py_startswith a (ascii ''State_'')"
  shows "py_lower a \<noteq> ascii ''accept''"
proof
  assume acc: "py_lower a = ascii ''accept''"
  then have "length (py_lower a) = length (ascii ''accept'')" by simp
  then have "length a = 6"
    by (simp add: py_lower_def ascii_def)
  with assms have "a = ascii ''State_''"
    by (simp add: py_startswith_def ascii_def)
  with acc show False
    by (simp add: py_lower_def ascii_def lower_char_def)
qed

lemma py_contains_hd_mem: "py_contains (x # xs) s \<Longrightarrow> x \<in> set s"
  by (induction s) (auto dest: in_set_takeD simp: take_Cons')

lemma accept_no_arrow:
  assumes "py_lower a = ascii ''accept''"
  shows "\<not> py_contains (ascii ''->'') a"
proof
  assume "py_contains (ascii ''->'') a"
  then have "45 \<in> set a"
    using py_contains_hd_mem[of 45 "[62]" a] by (simp add: ascii_def)
  then have "lower_char 45 \<in> set (py_lower a)"
    by (auto simp: py_lower_def)
  with assms show False
    by (simp add: ascii_def lower_char_def)
qed

lemma lr_reduce_action:
  "lr_reduce cs i a = Inr (act, temp, fin) \<Longrightarrow>
     (act = Reverse a \<and> \<not> fin) \<or> (act = REJECTED_previous_symbol \<and> fin)"
  by (auto simp: lr_reduce_def Let_def split: sum.splits prod.splits if_splits)

lemma lr_scan_finished_ends_loop:
  assumes "lr_scan lr cs = Inr (rd, act, temp, True)"
  shows "\<exists>out. lr_loop (Suc fuel) lr k cs outs = Some (Inr (outs @ [out]))"
  using assms by (simp add: lr_step_def split: prod.splits)

lemma lr_scan_no_pending:
  "first_pending cs = None \<Longrightarrow> lr_scan lr cs = Inr (None, None, cs, False)"
  by (simp add: lr_scan_def)

lemma lr_reduce_mismatch:
  "scan_symbols cs i (drop 3 a) [1..<Suc (length (drop 3 a))] [] = Inr (del, False, rej) \<Longrightarrow>
     lr_reduce cs i a = Inr (if rej then REJECTED_previous_symbol else Reverse a, cs, rej)"
  by (simp add: lr_reduce_def Let_def del: upt_Suc)

text \<open>
  The allowance of passes is a parameter of the model only. It has no influence on the
  outcome of a run that finishes: with any two allowances that suffice, a simulator gives
  the same trace, or raises the same exception.
\<close>

lemma outcome_independent_of_fuel:
  "(evaluate_ll_input n ll input = Some r \<and> evaluate_ll_input m ll input = Some r' \<longrightarrow> r = r') \<and>
   (evaluate_lr_input n lr input = Some t \<and> evaluate_lr_input m lr input = Some t' \<longrightarrow> t = t')"
proof -
  have "r = r'" if a: "evaluate_ll_input n ll input = Some r"
    and b: "evaluate_ll_input m ll input = Some r'"
  proof -
    from a have "evaluate_ll_input (n + m) ll input = Some r"
      unfolding evaluate_ll_input_def by (rule ll_loop_mono)
    moreover from b have "evaluate_ll_input (m + n) ll input = Some r'"
      unfolding evaluate_ll_input_def by (rule ll_loop_mono)
    ultimately show ?thesis by (simp add: add.commute)
  qed
  moreover have "t = t'" if a: "evaluate_lr_input n lr input = Some t"
    and b: "evaluate_lr_input m lr input = Some t'"
  proof -
    from a have "evaluate_lr_input (n + m) lr input = Some t"
      unfolding evaluate_lr_input_def by (rule lr_loop_mono)
    moreover from b have "evaluate_lr_input (m + n) lr input = Some t'"
      unfolding evaluate_lr_input_def by (rule lr_loop_mono)
    ultimately show ?thesis by (simp add: add.commute)
  qed
  ultimately show ?thesis by blast
qed

section \<open>The LR(1) simulator: the claims\<close>

text \<open>
  Claim C5, as amended. Let \<open>a\<close> be the action string found in the table for the state
  before the first compound without a state and that compound's symbol. Then exactly one
  of four cases applies:
  \<^item> \<open>a\<close> is \<open>accept\<close> up to case: the pass records \<open>ACCEPTED\<close> and ends the run;
  \<^item> \<open>a\<close> starts with \<open>State_\<close>: the pass records a shift and gives the compound the
    state \<open>a\<close>, whether or not \<open>a\<close> also contains \<open>->\<close>;
  \<^item> \<open>a\<close> contains \<open>->\<close> and does not start with \<open>State_\<close>: the pass takes the
    reduce branch, whose action is \<open>Reverse a\<close> unless a compound without a symbol is met;
  \<^item> none of the three: the pass records the rejection for an incorrect action and the
    run ends with that pass.
\<close>

theorem lr_action_classification:
  assumes "first_pending compounds = Some i"
    and "symbol (compounds ! i) = Some symb"
    and "py_index compounds (int i - 1) = Inr prev"
    and "state prev = Some prev_state"
    and "lr_table lr prev_state = Some prev_state_actions"
    and "prev_state_actions symb = Some a"
  shows "(py_lower a = ascii ''accept'' \<longrightarrow>
            lr_scan lr compounds = Inr (Some symb, Some ACCEPTED, compounds, True)) \<and>
         (py_startswith a (ascii ''State_'') \<longrightarrow>
            lr_scan lr compounds =
              Inr (Some symb, Some (ShiftTo a),
                   compounds[i := Compound (Some a) (Some symb)], False)) \<and>
         (py_contains (ascii ''->'') a \<and> \<not> py_startswith a (ascii ''State_'') \<longrightarrow>
            lr_scan lr compounds =
              (case lr_reduce compounds i a of
                 Inl e \<Rightarrow> Inl e
               | Inr (act, temp_compounds, fin) \<Rightarrow> Inr (Some symb, Some act, temp_compounds, fin)) \<and>
            (\<forall>act temp_compounds fin. lr_reduce compounds i a = Inr (act, temp_compounds, fin) \<longrightarrow>
               (act = Reverse a \<and> \<not> fin) \<or> (act = REJECTED_previous_symbol \<and> fin))) \<and>
         (py_lower a \<noteq> ascii ''accept'' \<and> \<not> py_startswith a (ascii ''State_'') \<and>
            \<not> py_contains (ascii ''->'') a \<longrightarrow>
            lr_scan lr compounds =
              Inr (Some symb, Some (REJECTED_incorrect symb prev_state), compounds, True) \<and>
            (\<exists>out. lr_loop (Suc fuel) lr k compounds outs = Some (Inr (outs @ [out]))))"
proof -
  have scan: "lr_scan lr compounds =
      (if py_lower a = ascii ''accept'' then Inr (Some symb, Some ACCEPTED, compounds, True)
       else if py_startswith a (ascii ''State_'') then
         Inr (Some symb, Some (ShiftTo a), compounds[i := Compound (Some a) (Some symb)], False)
       else if py_contains (ascii ''->'') a then
         (case lr_reduce compounds i a of
            Inl e \<Rightarrow> Inl e
          | Inr (act, temp_compounds, fin) \<Rightarrow> Inr (Some symb, Some act, temp_compounds, fin))
       else Inr (Some symb, Some (REJECTED_incorrect symb prev_state), compounds, True))"
    using assms by (simp add: lr_scan_def)
  have c1: "py_lower a = ascii ''accept'' \<longrightarrow>
      lr_scan lr compounds = Inr (Some symb, Some ACCEPTED, compounds, True)"
    using scan by simp
  have c2: "py_startswith a (ascii ''State_'') \<longrightarrow>
      lr_scan lr compounds =
        Inr (Some symb, Some (ShiftTo a), compounds[i := Compound (Some a) (Some symb)], False)"
    using scan startswith_State_not_accept[of a] by simp
  have c3: "py_contains (ascii ''->'') a \<and> \<not> py_startswith a (ascii ''State_'') \<longrightarrow>
      lr_scan lr compounds =
        (case lr_reduce compounds i a of
           Inl e \<Rightarrow> Inl e
         | Inr (act, temp_compounds, fin) \<Rightarrow> Inr (Some symb, Some act, temp_compounds, fin))"
    using scan accept_no_arrow[of a] by auto
  have c3': "\<forall>act temp_compounds fin. lr_reduce compounds i a = Inr (act, temp_compounds, fin) \<longrightarrow>
      (act = Reverse a \<and> \<not> fin) \<or> (act = REJECTED_previous_symbol \<and> fin)"
    using lr_reduce_action by blast
  have c4: "py_lower a \<noteq> ascii ''accept'' \<and> \<not> py_startswith a (ascii ''State_'') \<and>
      \<not> py_contains (ascii ''->'') a \<longrightarrow>
      lr_scan lr compounds =
        Inr (Some symb, Some (REJECTED_incorrect symb prev_state), compounds, True)"
    using scan by simp
  have c4': "lr_scan lr compounds =
        Inr (Some symb, Some (REJECTED_incorrect symb prev_state), compounds, True) \<longrightarrow>
      (\<exists>out. lr_loop (Suc fuel) lr k compounds outs = Some (Inr (outs @ [out])))"
    using lr_scan_finished_ends_loop by blast
  from c1 c2 c3 c3' c4 c4' show ?thesis by blast
qed

text \<open>In the table \<open>lr_accepting\<close>: the action \<open>Accept\<close> of state 2 on \<open>$\<close>, and
  the action \<open>State_1\<close> of state 0 on \<open>a\<close>.\<close>

theorem lr_action_classification_witness:
  "first_pending [Compound (Some (ascii ''State_0'')) (Some []),
                  Compound (Some (ascii ''State_2'')) (Some (ascii ''S'')),
                  Compound None (Some (ascii ''$''))] = Some 2 \<and>
   py_lower (ascii ''Accept'') = ascii ''accept'' \<and>
   lr_scan lr_accepting [Compound (Some (ascii ''State_0'')) (Some []),
                  Compound (Some (ascii ''State_2'')) (Some (ascii ''S'')),
                  Compound None (Some (ascii ''$''))]
     = Inr (Some (ascii ''$''), Some ACCEPTED,
            [Compound (Some (ascii ''State_0'')) (Some []),
             Compound (Some (ascii ''State_2'')) (Some (ascii ''S'')),
             Compound None (Some (ascii ''$''))], True) \<and>
   first_pending [Compound (Some (ascii ''State_0'')) (Some []),
                  Compound None (Some (ascii ''a'')),
                  Compound None (Some (ascii ''$''))] = Some 1 \<and>
   py_startswith (ascii ''State_1'') (ascii ''State_'') \<and>
   lr_scan lr_accepting [Compound (Some (ascii ''State_0'')) (Some []),
                  Compound None (Some (ascii ''a'')),
                  Compound None (Some (ascii ''$''))]
     = Inr (Some (ascii ''a''), Some (ShiftTo (ascii ''State_1'')),
            [Compound (Some (ascii ''State_0'')) (Some []),
             Compound (Some (ascii ''State_1'')) (Some (ascii ''a'')),
             Compound None (Some (ascii ''$''))], False)"
proof -
  let ?cs = "[Compound (Some (ascii ''State_0'')) (Some []),
              Compound (Some (ascii ''State_2'')) (Some (ascii ''S'')),
              Compound None (Some (ascii ''$''))]"
  let ?ds = "[Compound (Some (ascii ''State_0'')) (Some []),
              Compound None (Some (ascii ''a'')),
              Compound None (Some (ascii ''$''))]"
  have h1: "first_pending ?cs = Some 2" by simp
  have h2: "symbol (?cs ! 2) = Some (ascii ''$'')" by simp
  have h3: "py_index ?cs (int 2 - 1) = Inr (Compound (Some (ascii ''State_2'')) (Some (ascii ''S'')))"
    by (simp add: py_index_def)
  have h4: "state (Compound (Some (ascii ''State_2'')) (Some (ascii ''S''))) = Some (ascii ''State_2'')"
    by simp
  have h5: "lr_table lr_accepting (ascii ''State_2'') = Some [ascii ''$'' \<mapsto> ascii ''Accept'']"
    by (simp add: lr_accepting_def ascii_def)
  have h6: "[ascii ''$'' \<mapsto> ascii ''Accept''] (ascii ''$'') = Some (ascii ''Accept'')"
    by simp
  have low: "py_lower (ascii ''Accept'') = ascii ''accept''"
    by (simp add: py_lower_def ascii_def lower_char_def)
  from lr_action_classification[OF h1 h2 h3 h4 h5 h6] low
  have acc: "lr_scan lr_accepting ?cs = Inr (Some (ascii ''$''), Some ACCEPTED, ?cs, True)"
    by blast
  have g1: "first_pending ?ds = Some 1" by simp
  have g2: "symbol (?ds ! 1) = Some (ascii ''a'')" by simp
  have g3: "py_index ?ds (int 1 - 1) = Inr (Compound (Some (ascii ''State_0'')) (Some []))"
    by (simp add: py_index_def)
  have g4: "state (Compound (Some (ascii ''State_0'')) (Some [])) = Some (ascii ''State_0'')"
    by simp
  have g5: "lr_table lr_accepting (ascii ''State_0'')
      = Some [ascii ''a'' \<mapsto> ascii ''State_1'', ascii ''S'' \<mapsto> ascii ''State_2'']"
    by (simp add: lr_accepting_def ascii_def)
  have g6: "[ascii ''a'' \<mapsto> ascii ''State_1'', ascii ''S'' \<mapsto> ascii ''State_2''] (ascii ''a'')
      = Some (ascii ''State_1'')"
    by (simp add: ascii_def)
  have pre: "py_startswith (ascii ''State_1'') (ascii ''State_'')"
    by (simp add: py_startswith_def ascii_def)
  from lr_action_classification[OF g1 g2 g3 g4 g5 g6] pre
  have "lr_scan lr_accepting ?ds = Inr (Some (ascii ''a''), Some (ShiftTo (ascii ''State_1'')),
      ?ds[1 := Compound (Some (ascii ''State_1'')) (Some (ascii ''a''))], False)"
    by blast
  then have sh: "lr_scan lr_accepting ?ds = Inr (Some (ascii ''a''), Some (ShiftTo (ascii ''State_1'')),
      [Compound (Some (ascii ''State_0'')) (Some []),
       Compound (Some (ascii ''State_1'')) (Some (ascii ''a'')),
       Compound None (Some (ascii ''$''))], False)"
    by simp
  from h1 low acc g1 pre sh show ?thesis by blast
qed

text \<open>Claim C5 as it is stated fails: the action \<open>State_->\<close> contains the arrow and
  is taken as a shift, not as a reduction.\<close>

theorem lr_arrow_in_state_name_counterexample:
  "py_contains (ascii ''->'') (ascii ''State_->'') \<and>
   lr_scan lr_both_markers (lr_initial_compounds lr_both_markers (ascii ''a''))
     = Inr (Some (ascii ''a''), Some (ShiftTo (ascii ''State_->'')),
            [Compound (Some (ascii ''State_0'')) (Some []),
             Compound (Some (ascii ''State_->'')) (Some (ascii ''a''))], False)"
  by code_simp

text \<open>
  Claim C1 does not hold of the code. With the table \<open>lr_mismatch\<close> and the input
  \<open>a\<close>, the first pass finds the reduction \<open>X->b\<close> and compares \<open>b\<close> with the
  symbol of the start compound, which is empty. Line 321 sets \<open>action_is_valid\<close> to
  false and nothing else: the row says \<open>Reverse "X->b"\<close>, the compounds are unchanged
  and \<open>evaluation_finished\<close> stays false. Every later pass does the same, so no
  rejection is ever recorded and the run does not end.
\<close>

theorem lr_mismatched_reduction_never_rejects:
  "lr_step lr_mismatch 1 (lr_initial_compounds lr_mismatch (ascii ''a''))
     = Inr (\<lparr>lr_READ = Some (ascii ''a''), lr_ACTION = Some (Reverse (ascii ''X->b'')),
              lr_NO = 1, lr_STATE_STACK = ascii ''0'', lr_INPUT = ascii ''a''\<rparr>,
            lr_initial_compounds lr_mismatch (ascii ''a''), False) \<and>
   (\<forall>fuel. evaluate_lr_input fuel lr_mismatch (ascii ''a'') = None)"
proof -
  let ?cs = "lr_initial_compounds lr_mismatch (ascii ''a'')"
  have scan: "lr_scan lr_mismatch ?cs
      = Inr (Some (ascii ''a''), Some (Reverse (ascii ''X->b'')), ?cs, False)"
    by code_simp
  have cols: "lr_columns ?cs [] [] = ([ascii ''0''], [[], ascii ''a''], False)"
    by code_simp
  have step: "lr_step lr_mismatch k ?cs
      = Inr (\<lparr>lr_READ = Some (ascii ''a''), lr_ACTION = Some (Reverse (ascii ''X->b'')),
              lr_NO = k, lr_STATE_STACK = ascii ''0'', lr_INPUT = ascii ''a''\<rparr>, ?cs, False)" for k
    by (simp add: lr_step_def scan cols)
  then have "\<exists>out. lr_step lr_mismatch k ?cs = Inr (out, ?cs, False)" for k
    by blast
  then have "lr_loop fuel lr_mismatch 1 ?cs [] = None" for fuel
    by (rule lr_loop_stuck)
  with step[of 1] show ?thesis
    by (simp add: evaluate_lr_input_def)
qed

text \<open>
  Claim C2 does not hold of the code. With the table \<open>lr_early_reduce\<close> and the input
  \<open>abc\<close>, the second pass reduces by \<open>X->a\<close> with \<open>b\<close> and \<open>c\<close> still pending.
  Line 331 inserts the new compound at index \<^verbatim>\<open>len(temp_compounds) - 1\<close>, that is before
  the last compound: the sequence becomes start, \<open>b\<close>, \<open>X\<close>, \<open>c\<close>, where the claim
  puts \<open>X\<close> before \<open>b\<close>. The third row of the run shows the symbols \<open>bXc\<close>.
\<close>

theorem lr_reduction_inserts_before_last:
  "lr_step lr_early_reduce 2
     [Compound (Some (ascii ''State_0'')) (Some []),
      Compound (Some (ascii ''State_1'')) (Some (ascii ''a'')),
      Compound None (Some (ascii ''b'')),
      Compound None (Some (ascii ''c''))]
     = Inr (\<lparr>lr_READ = Some (ascii ''b''), lr_ACTION = Some (Reverse (ascii ''X->a'')),
              lr_NO = 2, lr_STATE_STACK = ascii ''0 1'', lr_INPUT = ascii ''abc''\<rparr>,
            [Compound (Some (ascii ''State_0'')) (Some []),
             Compound None (Some (ascii ''b'')),
             Compound None (Some (ascii ''X'')),
             Compound None (Some (ascii ''c''))], False) \<and>
   evaluate_lr_input 3 lr_early_reduce (ascii ''abc'') = Some (Inr
     [\<lparr>lr_READ = Some (ascii ''a''), lr_ACTION = Some (ShiftTo (ascii ''State_1'')),
        lr_NO = 1, lr_STATE_STACK = ascii ''0'', lr_INPUT = ascii ''abc''\<rparr>,
      \<lparr>lr_READ = Some (ascii ''b''), lr_ACTION = Some (Reverse (ascii ''X->a'')),
        lr_NO = 2, lr_STATE_STACK = ascii ''0 1'', lr_INPUT = ascii ''abc''\<rparr>,
      \<lparr>lr_READ = Some (ascii ''b''),
        lr_ACTION = Some (REJECTED_no_action (ascii ''State_0'') (ascii ''b'')),
        lr_NO = 3, lr_STATE_STACK = ascii ''0'', lr_INPUT = ascii ''bXc''\<rparr>])"
  by code_simp

text \<open>
  Claim C8 does not hold of the code. With the table \<open>lr_shift_only\<close> and the input
  \<open>a\<close>, the first pass shifts \<open>a\<close>, after which every compound has a state. The
  \<^verbatim>\<open>for\<close> loop of the next pass then ends without a \<^verbatim>\<open>break\<close>: the row has neither
  \<^verbatim>\<open>READ\<close> nor \<^verbatim>\<open>ACTION\<close>, the compounds are unchanged and \<open>evaluation_finished\<close>
  stays false, so the run does not end and records no rejection.
\<close>

theorem lr_no_pending_compound_loops:
  "lr_step lr_shift_only 2
     [Compound (Some (ascii ''State_0'')) (Some []),
      Compound (Some (ascii ''State_1'')) (Some (ascii ''a''))]
     = Inr (\<lparr>lr_READ = None, lr_ACTION = None, lr_NO = 2,
              lr_STATE_STACK = ascii ''0 1'', lr_INPUT = ascii ''a''\<rparr>,
            [Compound (Some (ascii ''State_0'')) (Some []),
             Compound (Some (ascii ''State_1'')) (Some (ascii ''a''))], False) \<and>
   (\<forall>fuel. evaluate_lr_input fuel lr_shift_only (ascii ''a'') = None)"
proof -
  let ?cs = "[Compound (Some (ascii ''State_0'')) (Some []),
              Compound (Some (ascii ''State_1'')) (Some (ascii ''a''))]"
  have scan: "lr_scan lr_shift_only ?cs = Inr (None, None, ?cs, False)"
    by (simp add: lr_scan_def)
  have r0: "py_replace (ascii ''State_'') [] (ascii ''State_0'') = ascii ''0''"
    by code_simp
  have r1: "py_replace (ascii ''State_'') [] (ascii ''State_1'') = ascii ''1''"
    by code_simp
  have join: "ascii ''0'' @ ascii '' '' @ ascii ''1'' = ascii ''0 1''"
    by (simp add: ascii_def)
  have step: "lr_step lr_shift_only k ?cs
      = Inr (\<lparr>lr_READ = None, lr_ACTION = None, lr_NO = k,
               lr_STATE_STACK = ascii ''0 1'', lr_INPUT = ascii ''a''\<rparr>, ?cs, False)" for k
    by (simp add: lr_step_def scan r0 r1 join)
  then have "\<exists>out. lr_step lr_shift_only k ?cs = Inr (out, ?cs, False)" for k
    by blast
  then have stuck: "lr_loop fuel lr_shift_only k ?cs outs = None" for fuel k outs
    by (rule lr_loop_stuck)
  have first: "lr_step lr_shift_only 1 (lr_initial_compounds lr_shift_only (ascii ''a''))
      = Inr (\<lparr>lr_READ = Some (ascii ''a''), lr_ACTION = Some (ShiftTo (ascii ''State_1'')),
               lr_NO = 1, lr_STATE_STACK = ascii ''0'', lr_INPUT = ascii ''a''\<rparr>, ?cs, False)"
    by code_simp
  have "evaluate_lr_input fuel lr_shift_only (ascii ''a'') = None" for fuel
  proof (cases fuel)
    case 0
    then show ?thesis by (simp add: evaluate_lr_input_def)
  next
    case (Suc f)
    with first stuck show ?thesis by (simp add: evaluate_lr_input_def)
  qed
  with step[of 2] show ?thesis by blast
qed

end
